theory Spec2Isabelle
  imports Main "HOL-Library.Sublist" "HOL-Library.Code_Target_Numeral"
begin

section \<open>Python text primitives used by app.py\<close>

text \<open>
  A Python \<^verbatim>\<open>str\<close> is a sequence of code points. Here a \<^typ>\<open>char\<close> stands for one code
  point in the range U+0000..U+00FF, so a \<^typ>\<open>string\<close> is a Python string over that range
  and \<^term>\<open>of_char c\<close> is \<^verbatim>\<open>ord(c)\<close>. The character classes below are the
  restrictions of Python's Unicode classes to that range.
\<close>

definition isdigit :: "char \<Rightarrow> bool" where
  \<comment> \<open>\<^verbatim>\<open>str.isdigit\<close> on one character: 0-9 and the superscripts U+00B2, U+00B3, U+00B9.\<close>
  "isdigit c =
     (let n = (of_char c :: nat) in (48 \<le> n \<and> n \<le> 57) \<or> n = 178 \<or> n = 179 \<or> n = 185)"

definition isdecimal :: "char \<Rightarrow> bool" where
  \<comment> \<open>The characters that \<^verbatim>\<open>int()\<close> reads as a decimal digit: 0-9.\<close>
  "isdecimal c = (let n = (of_char c :: nat) in 48 \<le> n \<and> n \<le> 57)"

definition isspace :: "char \<Rightarrow> bool" where
  \<comment> \<open>\<^verbatim>\<open>str.isspace\<close> on one character; what \<^verbatim>\<open>str.strip()\<close> removes.\<close>
  "isspace c =
     (let n = (of_char c :: nat)
      in (9 \<le> n \<and> n \<le> 13) \<or> (28 \<le> n \<and> n \<le> 32) \<or> n = 133 \<or> n = 160)"

definition is_linebreak :: "char \<Rightarrow> bool" where
  \<comment> \<open>The line boundaries of \<^verbatim>\<open>str.splitlines()\<close>.\<close>
  "is_linebreak c =
     (let n = (of_char c :: nat)
      in (10 \<le> n \<and> n \<le> 13) \<or> (28 \<le> n \<and> n \<le> 30) \<or> n = 133)"

fun splitlines_from :: "string \<Rightarrow> string \<Rightarrow> string list" where
  "splitlines_from cur [] = (if cur = [] then [] else [cur])"
| "splitlines_from cur (c # cs) =
     (if c = CHR 0x0D \<and> cs \<noteq> [] \<and> hd cs = CHR 0x0A then cur # splitlines_from [] (tl cs)
      else if is_linebreak c then cur # splitlines_from [] cs
      else splitlines_from (cur @ [c]) cs)"

definition splitlines :: "string \<Rightarrow> string list" where
  \<comment> \<open>\<^verbatim>\<open>str.splitlines()\<close>: line breaks are dropped, CR LF is one break, and no
      empty last line is produced after a final break.\<close>
  "splitlines s = splitlines_from [] s"

definition strip :: "string \<Rightarrow> string" where
  "strip s = rev (dropWhile isspace (rev (dropWhile isspace s)))"

fun str_in :: "string \<Rightarrow> string \<Rightarrow> bool" where
  \<comment> \<open>\<^verbatim>\<open>sub in s\<close> on strings: \<open>sub\<close> occurs in \<open>s\<close> as a contiguous substring.\<close>
  "str_in sub [] = (sub = [])"
| "str_in sub (c # cs) = (prefix sub (c # cs) \<or> str_in sub cs)"

fun str_nat :: "nat \<Rightarrow> string" where
  \<comment> \<open>\<^verbatim>\<open>str(n)\<close> for a non-negative integer.\<close>
  "str_nat n =
     (if n < 10 then [''0123456789'' ! n]
      else str_nat (n div 10) @ [''0123456789'' ! (n mod 10)])"

declare str_nat.simps [simp del]

datatype py_error = IndexError | KeyError | ValueError | OverflowError | ZeroDivisionError

definition py_int :: "nat \<Rightarrow> string \<Rightarrow> py_error + int" where
  \<comment> \<open>\<^verbatim>\<open>int(s)\<close> on a string made of characters that pass \<^verbatim>\<open>str.isdigit\<close>, the only
      strings app.py converts. The empty string and a character without a decimal value
      raise ValueError. \<open>max_str_digits\<close> is the interpreter's
      \<^verbatim>\<open>sys.get_int_max_str_digits()\<close> (4300 by default, 0 for no limit): above the
      check threshold of 640 digits a longer string raises ValueError.\<close>
  "py_int max_str_digits s =
     (if s = [] \<or> \<not> list_all isdecimal s then Inl ValueError
      else if 640 < length s \<and> 0 < max_str_digits \<and> max_str_digits < length s
        then Inl ValueError
      else Inr (foldl (\<lambda>a c. 10 * a + int (of_char c - 48)) 0 s))"

section \<open>The principle catalog (app.py, lines 18-59)\<close>

record principle =
  title :: string
  description :: string
  prompt :: string

definition principles :: "principle list" where
  "principles =
   [\<lparr>title = ''Chunk-Level Retrieval'',
     description = ''Is each section self-contained and focused on one topic?'',
     prompt = ''Analyze if the content contains semantically complete chunks that are self-contained and independently understandable. Does each section focus on a single idea? Rate 0-10 and explain.''\<rparr>,
    \<lparr>title = ''Answer Synthesis Optimization'',
     description = ''Is the answer easy to extract and fit into multi-source AI answers?'',
     prompt = ''Evaluate if the content is structured with a summary followed by elaboration, plain tone, and Q&A format. Rate 0-10 and explain.''\<rparr>,
    \<lparr>title = ''Citation-Worthiness'',
     description = ''Does the content look trustworthy and fact-based?'',
     prompt = ''Check if content includes citations, author credentials, accurate claims, and timestamps. Rate 0-10 and explain.''\<rparr>,
    \<lparr>title = ''Topical Breadth & Depth'',
     description = ''Does the site use hub-cluster model to fully cover a topic?'',
     prompt = ''Assess if the content follows a pillar-and-cluster approach, linking to detailed subtopics. Rate 0-10 and explain.''\<rparr>,
    \<lparr>title = ''Multi-Modal Support'',
     description = ''Are visuals and tables machine-readable and helpful?'',
     prompt = ''Evaluate if the content uses HTML tables, descriptive alt text, <figure> markup, and captions for images. Rate 0-10 and explain.''\<rparr>,
    \<lparr>title = ''Authoritativeness Signals'',
     description = ''Is there clear EEAT (expertise, authority, trust) in the content?'',
     prompt = ''Check for expert bylines, original data, external mentions, structured metadata, and citations. Rate 0-10 and explain.''\<rparr>,
    \<lparr>title = ''Personalization Resilience'',
     description = ''Does the content serve diverse intents, personas, or regions?'',
     prompt = ''Analyze if content targets multiple personas, intents, and locales with segmented sections. Rate 0-10 and explain.''\<rparr>,
    \<lparr>title = ''AI Crawlability & Indexability'',
     description = ''Is the content accessible and indexable by AI bots?'',
     prompt = ''Evaluate if content is server-rendered, allows AI bots via robots.txt, and avoids noindex/nosnippet. Rate 0-10 and explain.''\<rparr>]"

section \<open>The evaluation pipeline (app.py, lines 92-104)\<close>

text \<open>
  The text generation pipeline is an external object with its own state (weights, random
  generator). A call takes that state, the prompt and \<^verbatim>\<open>max_new_tokens\<close>; it either
  raises or returns a list of dictionaries, and leaves a new state behind.
\<close>

type_synonym ('s, 'e) generator =
  "'s \<Rightarrow> string \<Rightarrow> nat \<Rightarrow> ('e + (string \<rightharpoonup> string) list) \<times> 's"

text \<open>
  What ends a run early: an exception \<open>e\<close> raised inside the generator call, or a Python
  error raised by the statements of app.py themselves.
\<close>

datatype 'e failure = ServiceError 'e | Raised py_error

record result =
  Principle :: string
  Score :: int
  Explanation :: string

text \<open>The module's global variables that \<^verbatim>\<open>evaluate_content\<close> reads.\<close>

record 's globals =
  catalog :: "principle list"
  service :: 's

definition full_prompt :: "string \<Rightarrow> principle \<Rightarrow> string" where
  \<comment> \<open>line 95, the f-string\<close>
  "full_prompt content p =
     ''Content:\<newline>'' @ content @ ''\<newline>\<newline>Instruction:\<newline>'' @ prompt p"

definition first_generated_text :: "(string \<rightharpoonup> string) list \<Rightarrow> py_error + string" where
  \<comment> \<open>line 96, \<^verbatim>\<open>[0]['generated_text']\<close> on what the generator returned\<close>
  "first_generated_text out =
     (case out of
        [] \<Rightarrow> Inl IndexError
      | d # _ \<Rightarrow> (case d ''generated_text'' of None \<Rightarrow> Inl KeyError | Some reply \<Rightarrow> Inr reply))"

definition score_line :: "string \<Rightarrow> string" where
  \<comment> \<open>line 97\<close>
  "score_line reply =
     (case find (\<lambda>line. list_ex (\<lambda>n. str_in (str_nat n) line) [0..<11]) (splitlines reply) of
        None \<Rightarrow> ''Score: 0''
      | Some line \<Rightarrow> line)"

definition score :: "nat \<Rightarrow> string \<Rightarrow> py_error + int" where
  \<comment> \<open>line 98\<close>
  "score max_str_digits reply =
     (if list_ex isdigit (score_line reply)
      then py_int max_str_digits (filter isdigit (score_line reply))
      else Inr 0)"

fun evaluate_loop ::
  "nat \<Rightarrow> ('s, 'e) generator \<Rightarrow> string \<Rightarrow> principle list \<Rightarrow> result list \<Rightarrow> 's
     \<Rightarrow> ('e failure + result list) \<times> 's" where
  "evaluate_loop lim gen content [] results s = (Inr results, s)"
| "evaluate_loop lim gen content (p # ps) results s =
     (case gen s (full_prompt content p) 256 of
        (Inl e, s') \<Rightarrow> (Inl (ServiceError e), s')
      | (Inr out, s') \<Rightarrow>
          (case first_generated_text out of
             Inl e \<Rightarrow> (Inl (Raised e), s')
           | Inr reply \<Rightarrow>
               (case score lim reply of
                  Inl e \<Rightarrow> (Inl (Raised e), s')
                | Inr sc \<Rightarrow>
                    evaluate_loop lim gen content ps
                      (results @ [\<lparr>Principle = title p, Score = sc, Explanation = strip reply\<rparr>])
                      s')))"

definition evaluate_content ::
  "nat \<Rightarrow> ('s, 'e) generator \<Rightarrow> 's globals \<Rightarrow> string
     \<Rightarrow> ('e failure + result list) \<times> 's globals" where
  "evaluate_content lim gen g content =
     (case evaluate_loop lim gen content (catalog g) [] (service g) of
        (r, s') \<Rightarrow> (r, g\<lparr>service := s'\<rparr>))"

section \<open>Content acquisition (app.py, lines 62-73 and 79-87)\<close>

text \<open>
  \<open>fetch\<close> is the body of the \<^verbatim>\<open>try\<close> block of \<^verbatim>\<open>scrape_url\<close> (the HTTP GET with its
  header and timeout, \<^verbatim>\<open>raise_for_status\<close>, the HTML parse and the join of the stripped
  strings): it gives the text, or the \<^verbatim>\<open>Exception\<close> one of these statements raised.
  \<open>describe\<close> is \<^verbatim>\<open>str(e)\<close>, which the f-string of the handler applies.
\<close>

definition scrape_url :: "(string \<Rightarrow> 'x + string) \<Rightarrow> ('x \<Rightarrow> string) \<Rightarrow> string \<Rightarrow> string" where
  "scrape_url fetch describe url =
     (case fetch url of
        Inr text \<Rightarrow> text
      | Inl e \<Rightarrow> ''Error scraping URL: '' @ describe e)"

datatype content_mode = PasteText | ScrapeFromURL

text \<open>What the widgets return in one execution of the script.\<close>

record widgets =
  radio :: content_mode
  text_area :: string
  text_input :: string
  button :: bool

definition input_content ::
  "(string \<Rightarrow> 'x + string) \<Rightarrow> ('x \<Rightarrow> string) \<Rightarrow> widgets \<Rightarrow> string" where
  \<comment> \<open>lines 81-87\<close>
  "input_content fetch describe w =
     (if radio w = PasteText then text_area w
      else if text_input w \<noteq> [] then scrape_url fetch describe (text_input w)
      else [])"

section \<open>The overall score (app.py, lines 122-123)\<close>

text \<open>
  \<^verbatim>\<open>sum(...) / len(scores)\<close> is the true division of two Python integers: the IEEE 754
  double nearest to the quotient (ties to the even significand), OverflowError when that
  is beyond the doubles, ZeroDivisionError on a zero divisor. A finite double is kept
  exactly, as sign, significand and binary exponent: \<open>Double neg m e\<close> is
  \<open>(-1)\<^sup>n\<^sup>e\<^sup>g \<sqdot> m \<sqdot> 2\<^sup>e\<close>.
\<close>

datatype pyfloat = Double (negative: bool) (mantissa: nat) (exponent: int)

fun bit_length :: "nat \<Rightarrow> nat" where
  "bit_length n = (if n = 0 then 0 else Suc (bit_length (n div 2)))"

declare bit_length.simps [simp del]

definition floor_log2_quot :: "nat \<Rightarrow> nat \<Rightarrow> int" where
  \<comment> \<open>the integer part of the binary logarithm of \<open>a / b\<close>, for positive \<open>a\<close> and \<open>b\<close>\<close>
  "floor_log2_quot a b =
     (let d = int (bit_length a) - int (bit_length b)
      in if (0 \<le> d \<and> b * 2 ^ nat d \<le> a) \<or> (d < 0 \<and> b \<le> a * 2 ^ nat (- d)) then d else d - 1)"

definition round_half_even :: "nat \<Rightarrow> nat \<Rightarrow> nat" where
  \<comment> \<open>\<open>num / den\<close> rounded to the nearest integer, a tie to the even one\<close>
  "round_half_even num den =
     (let q = num div den; r = num mod den
      in if den < 2 * r \<or> (2 * r = den \<and> odd q) then q + 1 else q)"

definition round_to_double :: "nat \<Rightarrow> nat \<Rightarrow> (nat \<times> int) option" where
  \<comment> \<open>the double nearest to \<open>a / b\<close> as significand and exponent (53 bits, exponent at
      least -1074), \<open>None\<close> when it is \<open>2\<^sup>1\<^sup>0\<^sup>2\<^sup>4\<close> or more\<close>
  "round_to_double a b =
     (if a = 0 then Some (0, 0)
      else
        let e = max (floor_log2_quot a b - 52) (- 1074);
            m = (if e < 0 then round_half_even (a * 2 ^ nat (- e)) b
                 else round_half_even a (b * 2 ^ nat e))
        in if 0 \<le> e \<and> 2 ^ 1024 \<le> m * 2 ^ nat e then None else Some (m, e))"

definition py_truediv :: "int \<Rightarrow> int \<Rightarrow> py_error + pyfloat" where
  "py_truediv a b =
     (if b = 0 then Inl ZeroDivisionError
      else case round_to_double (nat \<bar>a\<bar>) (nat \<bar>b\<bar>) of
             None \<Rightarrow> Inl OverflowError
           | Some (m, e) \<Rightarrow> Inr (Double ((a < 0) \<noteq> (b < 0)) m e))"

definition tenths :: "pyfloat \<Rightarrow> nat" where
  \<comment> \<open>ten times the magnitude, rounded to the nearest integer, a tie to the even one\<close>
  "tenths x =
     (if 0 \<le> exponent x then mantissa x * 2 ^ nat (exponent x) * 10
      else round_half_even (mantissa x * 10) (2 ^ nat (- exponent x)))"

definition format_1f :: "pyfloat \<Rightarrow> string" where
  \<comment> \<open>the format specification \<^verbatim>\<open>.1f\<close>\<close>
  "format_1f x =
     (if negative x then ''-'' else []) @
     str_nat (tenths x div 10) @ ''.'' @ str_nat (tenths x mod 10)"

definition overall_score :: "result list \<Rightarrow> py_error + string" where
  "overall_score scores =
     (case py_truediv (sum_list (map Score scores)) (int (length scores)) of
        Inl e \<Rightarrow> Inl e
      | Inr avg_score \<Rightarrow> Inr (format_1f avg_score))"

section \<open>One execution of the script, and a session of executions\<close>

text \<open>
  Line 11 is the expression statement \<^verbatim>\<open>st.cache_resource\<close>, not a decorator: it has no
  effect, and line 15 calls \<^verbatim>\<open>load_model\<close> itself. \<open>built\<close> counts the pipelines the process
  has constructed so far, and \<open>pipeline k\<close> is the state of the instance that construction
  number \<open>k\<close> returns.
\<close>

definition load_model :: "(nat \<Rightarrow> 's) \<Rightarrow> nat \<Rightarrow> 's \<times> nat" where
  "load_model pipeline built = (pipeline built, Suc built)"

text \<open>
  \<open>render\<close> is lines 110-120: the data frame built from the results, the summary table
  and the detailed feedback. These are calls into pandas and Streamlit; they show the
  results and return nothing (\<open>None\<close>), or one of them raises (\<open>Some r\<close>) and the script
  stops before line 122.
\<close>

datatype ('e, 'r) page =
  NotRun | Aborted "'e failure" | RenderFailed 'r | Shown "result list" string

definition script ::
  "nat \<Rightarrow> (nat \<Rightarrow> 's) \<Rightarrow> ('s, 'e) generator \<Rightarrow> (result list \<Rightarrow> 'r option)
     \<Rightarrow> (string \<Rightarrow> 'x + string) \<Rightarrow> ('x \<Rightarrow> string)
     \<Rightarrow> widgets \<Rightarrow> nat \<Rightarrow> ('e, 'r) page \<times> nat" where
  "script lim pipeline gen render fetch describe w built =
     (case load_model pipeline built of
        (generator, built') \<Rightarrow>
          (let content = input_content fetch describe w
           in if button w \<and> content \<noteq> [] then
                (case evaluate_content lim gen \<lparr>catalog = principles, service = generator\<rparr> content of
                   (Inl e, _) \<Rightarrow> (Aborted e, built')
                 | (Inr scores, _) \<Rightarrow>
                     (case render scores of
                        Some r \<Rightarrow> (RenderFailed r, built')
                      | None \<Rightarrow>
                          (case overall_score scores of
                             Inl e \<Rightarrow> (Aborted (Raised e), built')
                           | Inr shown \<Rightarrow> (Shown scores shown, built'))))
              else (NotRun, built')))"

text \<open>
  Streamlit executes the script when a session opens and again after every interaction
  with a widget, in the same process: a session is a list of widget states.
\<close>

fun reruns ::
  "nat \<Rightarrow> (nat \<Rightarrow> 's) \<Rightarrow> ('s, 'e) generator \<Rightarrow> (result list \<Rightarrow> 'r option)
     \<Rightarrow> (string \<Rightarrow> 'x + string) \<Rightarrow> ('x \<Rightarrow> string)
     \<Rightarrow> widgets list \<Rightarrow> nat \<Rightarrow> ('e, 'r) page list \<times> nat" where
  "reruns lim pipeline gen render fetch describe [] built = ([], built)"
| "reruns lim pipeline gen render fetch describe (w # ws) built =
     (case script lim pipeline gen render fetch describe w built of
        (shown, built') \<Rightarrow>
          (case reruns lim pipeline gen render fetch describe ws built' of
             (rest, built'') \<Rightarrow> (shown # rest, built'')))"

section \<open>Generators to run the pipeline with\<close>

definition constant_reply :: "string \<Rightarrow> (nat, unit) generator" where
  \<comment> \<open>answers every prompt with the same text, and counts its calls\<close>
  "constant_reply reply = (\<lambda>s p n. (Inr [[''generated_text'' \<mapsto> reply]], Suc s))"

definition echo_then :: "string \<Rightarrow> (nat, unit) generator" where
  \<comment> \<open>returns the prompt followed by a continuation, as a text generation pipeline
      does, and counts its calls\<close>
  "echo_then continuation =
     (\<lambda>s p n. (Inr [[''generated_text'' \<mapsto> p @ continuation]], Suc s))"

definition failing_call :: "nat \<Rightarrow> string \<Rightarrow> (nat, unit) generator" where
  \<comment> \<open>counts its calls and raises on call number \<open>k\<close> (from 0)\<close>
  "failing_call k reply =
     (\<lambda>s p n. (if s = k then Inl () else Inr [[''generated_text'' \<mapsto> reply]], Suc s))"

definition raises_beyond_64_bits :: "result list \<Rightarrow> unit option" where
  \<comment> \<open>a display that raises when a score is \<open>2\<^sup>6\<^sup>4\<close> or more, as the conversion of the
      data frame to an Arrow table does\<close>
  "raises_beyond_64_bits scores =
     (if list_ex (\<lambda>r. 2 ^ 64 \<le> Score r) scores then Some () else None)"

definition logged :: "('s, 'e) generator \<Rightarrow> ('s \<times> (string \<times> nat) list, 'e) generator" where
  \<comment> \<open>the same generator, keeping the list of the arguments it was called with\<close>
  "logged gen =
     (\<lambda>(s, calls) p n. case gen s p n of (r, s') \<Rightarrow> (r, (s', calls @ [(p, n)])))"

section \<open>Properties of the evaluation loop\<close>

lemma evaluate_loop_Cons_Inr:
  fixes gen :: "('s, 'e) generator"
  assumes "evaluate_loop lim gen content (p # ps) acc s = (Inr rs, s')"
  obtains out s1 reply sc where
    "gen s (full_prompt content p) 256 = (Inr out, s1)"
    "first_generated_text out = Inr reply"
    "score lim reply = Inr sc"
    "evaluate_loop lim gen content ps
       (acc @ [\<lparr>Principle = title p, Score = sc, Explanation = strip reply\<rparr>]) s1 = (Inr rs, s')"
proof -
  obtain r s1 where g: "gen s (full_prompt content p) 256 = (r, s1)"
    by (cases "gen s (full_prompt content p) 256")
  show thesis
  proof (cases r)
    case (Inl e)
    with g assms show thesis by simp
  next
    case (Inr out)
    note out = this
    show thesis
    proof (cases "first_generated_text out")
      case (Inl e)
      with g out assms show thesis by simp
    next
      case (Inr reply)
      note reply = this
      show thesis
      proof (cases "score lim reply")
        case (Inl e)
        with g out reply assms show thesis by simp
      next
        case (Inr sc)
        with g out reply assms have
          "evaluate_loop lim gen content ps
             (acc @ [\<lparr>Principle = title p, Score = sc, Explanation = strip reply\<rparr>]) s1 = (Inr rs, s')"
          by simp
        moreover from g out have "gen s (full_prompt content p) 256 = (Inr out, s1)" by simp
        ultimately show thesis using reply Inr by (rule that [rotated 3])
      qed
    qed
  qed
qed

lemma evaluate_loop_shape:
  "evaluate_loop lim gen content ps acc s = (Inr rs, s') \<Longrightarrow>
     length rs = length acc + length ps \<and> map Principle rs = map Principle acc @ map title ps"
proof (induction ps arbitrary: acc s)
  case Nil
  then show ?case by simp
next
  case (Cons p ps)
  from Cons.prems obtain out s1 reply sc where
    "evaluate_loop lim gen content ps
       (acc @ [\<lparr>Principle = title p, Score = sc, Explanation = strip reply\<rparr>]) s1 = (Inr rs, s')"
    by (rule evaluate_loop_Cons_Inr)
  from Cons.IH [OF this] show ?case by simp
qed

lemma evaluate_loop_append_Inr:
  "evaluate_loop lim gen content ps1 acc s = (Inr rs1, s1) \<Longrightarrow>
     evaluate_loop lim gen content (ps1 @ ps2) acc s = evaluate_loop lim gen content ps2 rs1 s1"
proof (induction ps1 arbitrary: acc s)
  case Nil
  then show ?case by simp
next
  case (Cons p ps1)
  from Cons.prems obtain out s' reply sc where
    step: "gen s (full_prompt content p) 256 = (Inr out, s')"
      "first_generated_text out = Inr reply" "score lim reply = Inr sc"
    and rest: "evaluate_loop lim gen content ps1
       (acc @ [\<lparr>Principle = title p, Score = sc, Explanation = strip reply\<rparr>]) s' = (Inr rs1, s1)"
    by (rule evaluate_loop_Cons_Inr)
  from step Cons.IH [OF rest] show ?case by simp
qed

lemma foldl_digits_nonneg:
  "0 \<le> a \<Longrightarrow> 0 \<le> foldl (\<lambda>a c. 10 * a + int (of_char c - 48)) a ds"
  by (induction ds arbitrary: a) simp_all

lemma py_int_nonneg: "py_int lim ds = Inr v \<Longrightarrow> 0 \<le> v"
  using foldl_digits_nonneg [of 0 ds] by (auto simp: py_int_def split: if_splits)

lemma score_nonneg: "score lim reply = Inr v \<Longrightarrow> 0 \<le> v"
  by (auto simp: score_def dest: py_int_nonneg split: if_splits)

lemma evaluate_loop_scores:
  "evaluate_loop lim gen content ps acc s = (Inr rs, s') \<Longrightarrow>
     \<forall>r \<in> set acc. 0 \<le> Score r \<Longrightarrow> \<forall>r \<in> set rs. 0 \<le> Score r"
proof (induction ps arbitrary: acc s)
  case Nil
  then show ?case by simp
next
  case (Cons p ps)
  from Cons.prems(1) obtain out s1 reply sc where
    sc: "score lim reply = Inr sc"
    and rest: "evaluate_loop lim gen content ps
       (acc @ [\<lparr>Principle = title p, Score = sc, Explanation = strip reply\<rparr>]) s1 = (Inr rs, s')"
    by (rule evaluate_loop_Cons_Inr)
  from sc have "0 \<le> sc" by (rule score_nonneg)
  with Cons.prems(2) have
    "\<forall>r \<in> set (acc @ [\<lparr>Principle = title p, Score = sc, Explanation = strip reply\<rparr>]). 0 \<le> Score r"
    by simp
  from Cons.IH [OF rest this] show ?case .
qed

lemma evaluate_content_Inr:
  assumes "evaluate_content lim gen g content = (Inr rs, g')"
  shows "evaluate_loop lim gen content (catalog g) [] (service g) = (Inr rs, service g')"
    and "catalog g' = catalog g"
  using assms by (auto simp: evaluate_content_def split: prod.splits)

lemma evaluate_content_catalog:
  "catalog (snd (evaluate_content lim gen g content)) = catalog g"
  by (simp add: evaluate_content_def split: prod.split)

lemma evaluate_content_complete:
  assumes "evaluate_content lim gen g content = (Inr rs, g')"
  shows "length rs = length (catalog g) \<and> map Principle rs = map title (catalog g)"
  using evaluate_loop_shape [OF evaluate_content_Inr(1) [OF assms]] by simp

lemma length_principles: "length principles = 8"
  by (simp add: principles_def)

text \<open>
  Claim C2, as amended: in every run that returns its results, every score is a
  non-negative integer. No upper bound holds: the digits of the selected line are
  concatenated, so the reply \<^verbatim>\<open>Score: 7 out of 10.\<close> gives 710.
\<close>

theorem scores_are_non_negative:
  assumes "evaluate_content lim gen g content = (Inr rs, g')"
  shows "\<forall>r \<in> set rs. 0 \<le> Score r"
proof -
  from assms have "evaluate_loop lim gen content (catalog g) [] (service g) = (Inr rs, service g')"
    by (rule evaluate_content_Inr)
  then show ?thesis by (rule evaluate_loop_scores) simp
qed

lemma evaluate_loop_deterministic:
  fixes gen :: "('s, 'e) generator"
  assumes det: "\<forall>s s' p n. fst (gen s p n) = fst (gen s' p n)"
  shows "fst (evaluate_loop lim gen content ps acc s) = fst (evaluate_loop lim gen content ps acc s')"
proof (induction ps arbitrary: acc s s')
  case Nil
  show ?case by simp
next
  case (Cons p ps)
  obtain r s1 where g: "gen s (full_prompt content p) 256 = (r, s1)"
    by (cases "gen s (full_prompt content p) 256")
  obtain r' s1' where g': "gen s' (full_prompt content p) 256 = (r', s1')"
    by (cases "gen s' (full_prompt content p) 256")
  from det have "fst (gen s' (full_prompt content p) 256) = fst (gen s (full_prompt content p) 256)"
    by blast
  with g g' have "r' = r" by simp
  with g g' Cons.IH show ?case
    by (simp split: sum.split)
qed

lemmas score_simps =
  score_def score_line_def splitlines_def isdigit_def isdecimal_def is_linebreak_def py_int_def
  str_nat.simps upt_rec

lemmas run_simps =
  evaluate_content_def principles_def full_prompt_def first_generated_text_def strip_def isspace_def

section \<open>Score extraction\<close>

text \<open>
  Claim C1: the score of a reply is the integer read from the digits of its first line
  that mentions one of 0..10. On the reply \<^verbatim>\<open>Area: 50 m\<close> followed by U+00B2
  (superscript two) the selected line has the digit characters 5, 0 and the superscript,
  which \<^verbatim>\<open>str.isdigit\<close> accepts and \<^verbatim>\<open>int\<close> rejects: no score is computed, the
  conversion raises ValueError.
\<close>

theorem score_superscript_digit_raises:
  "score lim (''Area: 50 m'' @ [CHR 0xB2]) = Inl ValueError"
  by (simp add: score_simps)

text \<open>
  Apart from that the code follows the rule of the claim. A line is selected exactly when
  it contains one of the characters 0-9, and when the digit characters of the selected
  line are all among 0-9 (and not more than the interpreter converts) the score is the
  number they spell, 0 when there is none.
\<close>

lemma isdecimal_iff: "isdecimal c \<longleftrightarrow> c \<in> set ''0123456789''"
proof
  assume "isdecimal c"
  then have "48 \<le> (of_char c :: nat) \<and> (of_char c :: nat) \<le> 57"
    by (simp add: isdecimal_def Let_def)
  then have "(of_char c :: nat) \<in> {48, 49, 50, 51, 52, 53, 54, 55, 56, 57}"
    by simp arith
  then have "(of_char c :: nat) \<in> of_char ` set ''0123456789''"
    by simp
  then obtain d where "d \<in> set ''0123456789''" and "(of_char c :: nat) = of_char d"
    by blast
  then show "c \<in> set ''0123456789''" by simp
next
  assume "c \<in> set ''0123456789''"
  then show "isdecimal c" by (auto simp: isdecimal_def)
qed

lemma str_in_set: "str_in sub s \<Longrightarrow> set sub \<subseteq> set s"
proof (induction s)
  case Nil
  then show ?case by simp
next
  case (Cons a s)
  from Cons.prems have "prefix sub (a # s) \<or> str_in sub s" by simp
  then show ?case
  proof
    assume "prefix sub (a # s)"
    then show ?thesis by (rule set_mono_prefix)
  next
    assume "str_in sub s"
    then have "set sub \<subseteq> set s" by (rule Cons.IH)
    then show ?thesis by auto
  qed
qed

lemma str_in_single: "c \<in> set s \<Longrightarrow> str_in [c] s"
  by (induction s) auto

lemma str_nat_digit: "n < 10 \<Longrightarrow> str_nat n = [''0123456789'' ! n]"
  by (simp add: str_nat.simps)

lemma rating_line_iff:
  "list_ex (\<lambda>n. str_in (str_nat n) line) [0..<11] \<longleftrightarrow> list_ex isdecimal line"
proof
  assume "list_ex (\<lambda>n. str_in (str_nat n) line) [0..<11]"
  then obtain n where n: "n < 11" and "str_in (str_nat n) line"
    by (auto simp: list_ex_iff)
  then have sub: "set (str_nat n) \<subseteq> set line" by (rule_tac str_in_set)
  have "list_all (\<lambda>n. list_ex isdecimal (str_nat n)) [0..<11]"
    by (simp add: upt_rec str_nat.simps isdecimal_def)
  with n have "list_ex isdecimal (str_nat n)"
    unfolding list_all_iff by simp
  with sub show "list_ex isdecimal line"
    unfolding list_ex_iff by blast
next
  assume "list_ex isdecimal line"
  then obtain c where c: "c \<in> set line" and d: "c \<in> set ''0123456789''"
    unfolding list_ex_iff isdecimal_iff by blast
  note d
  moreover have "list_all (\<lambda>c. list_ex (\<lambda>n. str_nat n = [c]) [0..<11]) ''0123456789''"
    by (simp add: upt_rec str_nat.simps)
  ultimately have "list_ex (\<lambda>n. str_nat n = [c]) [0..<11]"
    unfolding list_all_iff by blast
  then obtain n where "n \<in> set [0..<11]" and "str_nat n = [c]"
    unfolding list_ex_iff by blast
  with c have "n \<in> set [0..<11]" and "str_in (str_nat n) line"
    by (simp_all add: str_in_single)
  then show "list_ex (\<lambda>n. str_in (str_nat n) line) [0..<11]"
    unfolding list_ex_iff by blast
qed

lemma score_line_selects:
  "score_line reply =
     (case find (list_ex isdecimal) (splitlines reply) of
        None \<Rightarrow> ''Score: 0''
      | Some line \<Rightarrow> line)"
proof -
  have "(\<lambda>line. list_ex (\<lambda>n. str_in (str_nat n) line) [0..<11]) = list_ex isdecimal"
    by (rule ext) (rule rating_line_iff)
  then show ?thesis by (simp only: score_line_def)
qed

lemma score_follows_rule:
  assumes "list_all isdecimal (filter isdigit (score_line reply))"
    and "length (filter isdigit (score_line reply)) \<le> 640 \<or> lim = 0 \<or>
         length (filter isdigit (score_line reply)) \<le> lim"
  shows "score lim reply =
     Inr (foldl (\<lambda>a c. 10 * a + int (of_char c - 48)) 0 (filter isdigit (score_line reply)))"
proof (cases "list_ex isdigit (score_line reply)")
  case True
  then have "filter isdigit (score_line reply) \<noteq> []"
    by (auto simp: list_ex_iff filter_empty_conv)
  with True assms show ?thesis
    by (auto simp: score_def py_int_def)
next
  case False
  then have "filter isdigit (score_line reply) = []"
    by (auto simp: list_ex_iff filter_empty_conv)
  with False show ?thesis by (simp add: score_def)
qed

text \<open>
  Claim C2 states that every score lies in 0..10. With a generator that always answers
  \<^verbatim>\<open>Score: 7 out of 10.\<close> every one of the eight results has the score 710.
\<close>

theorem score_above_ten_counterexample:
  "fst (evaluate_content 4300 (constant_reply ''Score: 7 out of 10.'')
          \<lparr>catalog = principles, service = 0\<rparr> ''Some page text'') =
   (Inr [\<lparr>Principle = ''Chunk-Level Retrieval'', Score = 710, Explanation = ''Score: 7 out of 10.''\<rparr>,
        \<lparr>Principle = ''Answer Synthesis Optimization'', Score = 710, Explanation = ''Score: 7 out of 10.''\<rparr>,
        \<lparr>Principle = ''Citation-Worthiness'', Score = 710, Explanation = ''Score: 7 out of 10.''\<rparr>,
        \<lparr>Principle = ''Topical Breadth & Depth'', Score = 710, Explanation = ''Score: 7 out of 10.''\<rparr>,
        \<lparr>Principle = ''Multi-Modal Support'', Score = 710, Explanation = ''Score: 7 out of 10.''\<rparr>,
        \<lparr>Principle = ''Authoritativeness Signals'', Score = 710, Explanation = ''Score: 7 out of 10.''\<rparr>,
        \<lparr>Principle = ''Personalization Resilience'', Score = 710, Explanation = ''Score: 7 out of 10.''\<rparr>,
        \<lparr>Principle = ''AI Crawlability & Indexability'', Score = 710, Explanation = ''Score: 7 out of 10.''\<rparr>])"
  by (simp add: run_simps constant_reply_def score_simps)

text \<open>
  Claim C3: a run in which the generator answers all its calls returns one result per
  principle. With the content \<^verbatim>\<open>Area: 50 m\<close> followed by U+00B2 and a generator that
  returns the prompt followed by any continuation, the first reply already makes the
  score conversion raise ValueError: the run returns no results at all.
\<close>

theorem run_aborts_on_superscript_digit:
  "fst (evaluate_content lim (echo_then continuation)
          \<lparr>catalog = principles, service = s\<rparr> (''Area: 50 m'' @ [CHR 0xB2])) =
   Inl (Raised ValueError)"
  by (simp add: run_simps echo_then_def score_simps)

text \<open>A run to which the theorem on non-negative scores (claim C2) applies.\<close>

theorem scores_are_non_negative_witness:
  "evaluate_content 4300 (constant_reply ''7/10'')
      \<lparr>catalog = [\<lparr>title = ''T'', description = ''D'', prompt = ''Rate 0-10 and explain.''\<rparr>], service = 0\<rparr> ''x'' =
     (Inr [\<lparr>Principle = ''T'', Score = 710, Explanation = ''7/10''\<rparr>],
      \<lparr>catalog = [\<lparr>title = ''T'', description = ''D'', prompt = ''Rate 0-10 and explain.''\<rparr>], service = 1\<rparr>)
   \<and> 0 \<le> Score \<lparr>Principle = ''T'', Score = 710, Explanation = ''7/10''\<rparr>"
proof -
  have run: "evaluate_content 4300 (constant_reply ''7/10'')
      \<lparr>catalog = [\<lparr>title = ''T'', description = ''D'', prompt = ''Rate 0-10 and explain.''\<rparr>], service = 0\<rparr> ''x'' =
     (Inr [\<lparr>Principle = ''T'', Score = 710, Explanation = ''7/10''\<rparr>],
      \<lparr>catalog = [\<lparr>title = ''T'', description = ''D'', prompt = ''Rate 0-10 and explain.''\<rparr>], service = 1\<rparr>)"
    by (simp add: run_simps constant_reply_def score_simps)
  from scores_are_non_negative [OF run]
  have "0 \<le> Score \<lparr>Principle = ''T'', Score = 710, Explanation = ''7/10''\<rparr>"
    by simp
  with run show ?thesis by (rule conjI)
qed

section \<open>Failures of the generator\<close>

text \<open>
  Claim C4: when the generator raises on some principle, after the principles before it
  went through, the run ends with that error and no result list; the state of the
  generator is the one its failing call left, so no further call (no retry) was made.
\<close>

theorem generation_failure_aborts_run:
  assumes "catalog g = ps1 @ p # ps2"
    and "evaluate_loop lim gen content ps1 [] (service g) = (Inr rs1, s1)"
    and "gen s1 (full_prompt content p) 256 = (Inl e, s2)"
  shows "evaluate_content lim gen g content = (Inl (ServiceError e), g\<lparr>service := s2\<rparr>)"
proof -
  from assms(2) have
    "evaluate_loop lim gen content (ps1 @ p # ps2) [] (service g) =
     evaluate_loop lim gen content (p # ps2) rs1 s1"
    by (rule evaluate_loop_append_Inr)
  also from assms(3) have "\<dots> = (Inl (ServiceError e), s2)" by simp
  finally show ?thesis using assms(1) by (simp add: evaluate_content_def)
qed

text \<open>Claim C4 on a generator that raises on the third of the eight principles.\<close>

theorem generation_failure_aborts_run_witness:
  "catalog \<lparr>catalog = principles, service = 0 :: nat\<rparr> =
     take 2 principles @ principles ! 2 # drop 3 principles
   \<and> evaluate_loop 4300 (failing_call 2 ''Score: 7'') ''abc'' (take 2 principles) [] 0 =
       (Inr [\<lparr>Principle = ''Chunk-Level Retrieval'', Score = 7, Explanation = ''Score: 7''\<rparr>,
             \<lparr>Principle = ''Answer Synthesis Optimization'', Score = 7, Explanation = ''Score: 7''\<rparr>], 2)
   \<and> failing_call 2 ''Score: 7'' 2 (full_prompt ''abc'' (principles ! 2)) 256 = (Inl (), 3)
   \<and> evaluate_content 4300 (failing_call 2 ''Score: 7'') \<lparr>catalog = principles, service = 0\<rparr> ''abc'' =
       (Inl (ServiceError ()), \<lparr>catalog = principles, service = 3\<rparr>)"
proof -
  let ?g = "\<lparr>catalog = principles, service = 0::nat\<rparr>"
  have a: "catalog ?g = take 2 principles @ principles ! 2 # drop 3 principles"
    by (simp add: principles_def)
  have b: "evaluate_loop 4300 (failing_call 2 ''Score: 7'') ''abc'' (take 2 principles) [] 0 =
       (Inr [\<lparr>Principle = ''Chunk-Level Retrieval'', Score = 7, Explanation = ''Score: 7''\<rparr>,
             \<lparr>Principle = ''Answer Synthesis Optimization'', Score = 7, Explanation = ''Score: 7''\<rparr>], 2)"
    by (simp add: run_simps failing_call_def score_simps)
  then have b': "evaluate_loop 4300 (failing_call 2 ''Score: 7'') ''abc'' (take 2 principles) [] (service ?g) =
       (Inr [\<lparr>Principle = ''Chunk-Level Retrieval'', Score = 7, Explanation = ''Score: 7''\<rparr>,
             \<lparr>Principle = ''Answer Synthesis Optimization'', Score = 7, Explanation = ''Score: 7''\<rparr>], 2)"
    by simp
  have c: "failing_call 2 ''Score: 7'' 2 (full_prompt ''abc'' (principles ! 2)) 256 = (Inl (), 3)"
    by (simp add: failing_call_def)
  have "evaluate_content 4300 (failing_call 2 ''Score: 7'') ?g ''abc'' =
       (Inl (ServiceError ()), \<lparr>catalog = principles, service = 3\<rparr>)"
    using generation_failure_aborts_run [OF a b' c] by simp
  with a b c show ?thesis by blast
qed

section \<open>The catalog and repeated runs\<close>

text \<open>
  Claim C9: the catalog has eight principles, and a call of \<^verbatim>\<open>evaluate_content\<close>, on
  any content and with any generator, leaves the catalog it read unchanged.
\<close>

theorem catalog_is_fixed:
  "length principles = 8 \<and> catalog (snd (evaluate_content lim gen g content)) = catalog g"
  by (simp add: length_principles evaluate_content_catalog)

text \<open>
  Claim C10: when the reply of the generator depends on the prompt and the token budget
  only, not on its state, a second call on the same content returns the same results
  (or the same error) as the first.
\<close>

theorem evaluate_content_repeatable:
  fixes gen :: "('s, 'e) generator"
  assumes "\<forall>s s' p n. fst (gen s p n) = fst (gen s' p n)"
  shows "fst (evaluate_content lim gen (snd (evaluate_content lim gen g content)) content) =
         fst (evaluate_content lim gen g content)"
proof -
  have same_catalog:
    "fst (evaluate_content lim gen g1 content) = fst (evaluate_content lim gen g2 content)"
    if same: "catalog g1 = catalog g2" for g1 g2 :: "'s globals"
  proof -
    obtain r1 t1 where e1: "evaluate_loop lim gen content (catalog g2) [] (service g1) = (r1, t1)"
      by (cases "evaluate_loop lim gen content (catalog g2) [] (service g1)")
    obtain r2 t2 where e2: "evaluate_loop lim gen content (catalog g2) [] (service g2) = (r2, t2)"
      by (cases "evaluate_loop lim gen content (catalog g2) [] (service g2)")
    from evaluate_loop_deterministic
      [where gen = gen, OF assms, where lim = lim and content = content and ps = "catalog g2"
         and acc = "[]" and s = "service g1" and s' = "service g2"] e1 e2
    have "r1 = r2" by simp
    with same e1 e2 show ?thesis by (simp add: evaluate_content_def)
  qed
  show ?thesis by (rule same_catalog) (rule evaluate_content_catalog)
qed

text \<open>Claim C10 on a generator that echoes the prompt and counts its calls.\<close>

theorem evaluate_content_repeatable_witness:
  "(\<forall>s s' p n. fst (echo_then '' Score: 7'' s p n) =
                fst (echo_then '' Score: 7'' s' p n))
   \<and> fst (evaluate_content 4300 (echo_then '' Score: 7'')
           (snd (evaluate_content 4300 (echo_then '' Score: 7'') \<lparr>catalog = principles, service = 0\<rparr> ''abc''))
           ''abc'') =
       fst (evaluate_content 4300 (echo_then '' Score: 7'')
           \<lparr>catalog = principles, service = 0\<rparr> ''abc'')"
proof -
  have det: "\<forall>s s' p n. fst (echo_then '' Score: 7'' s p n) =
             fst (echo_then '' Score: 7'' s' p n)"
    by (simp add: echo_then_def)
  let ?gen = "echo_then '' Score: 7''"
  have "fst (evaluate_content 4300 ?gen
           (snd (evaluate_content 4300 ?gen \<lparr>catalog = principles, service = 0\<rparr> ''abc'')) ''abc'') =
        fst (evaluate_content 4300 ?gen \<lparr>catalog = principles, service = 0\<rparr> ''abc'')"
    by (rule evaluate_content_repeatable) (rule det)
  with det show ?thesis by (rule conjI)
qed

section \<open>What the generator is called with\<close>

text \<open>
  The arguments of the calls are observed by running the loop with a generator that
  records them; recording changes neither the results nor the state of the generator.
\<close>

lemma logged_call:
  "gen s p n = (r, s') \<Longrightarrow> logged gen (s, calls) p n = (r, (s', calls @ [(p, n)]))"
  by (simp add: logged_def)

lemma evaluate_loop_logged:
  fixes gen :: "('s, 'e) generator"
  shows "\<exists>k. k \<le> length ps \<and>
     snd (snd (evaluate_loop lim (logged gen) content ps acc (s, calls))) =
       calls @ map (\<lambda>p. (full_prompt content p, 256)) (take k ps) \<and>
     (k = length ps \<or> (\<exists>e. fst (evaluate_loop lim (logged gen) content ps acc (s, calls)) = Inl e))"
proof (induction ps arbitrary: acc s calls)
  case Nil
  show ?case by simp
next
  case (Cons p ps)
  let ?c = "calls @ [(full_prompt content p, 256)]"
  obtain r s1 where g: "gen s (full_prompt content p) 256 = (r, s1)"
    by (cases "gen s (full_prompt content p) 256")
  then have lg: "logged gen (s, calls) (full_prompt content p) 256 = (r, (s1, ?c))"
    by (rule logged_call)
  have stop: ?case
    if "evaluate_loop lim (logged gen) content (p # ps) acc (s, calls) = (Inl e, (s1, ?c))" for e
  proof (intro exI [of _ 1] conjI)
    show "1 \<le> length (p # ps)" by simp
    show "snd (snd (evaluate_loop lim (logged gen) content (p # ps) acc (s, calls))) =
      calls @ map (\<lambda>p. (full_prompt content p, 256)) (take 1 (p # ps))"
      using that by simp
    show "1 = length (p # ps) \<or>
      (\<exists>e. fst (evaluate_loop lim (logged gen) content (p # ps) acc (s, calls)) = Inl e)"
      using that by simp
  qed
  show ?case
  proof (cases r)
    case (Inl e)
    with lg show ?thesis by (intro stop [of "ServiceError e"]) simp
  next
    case (Inr out)
    note out = this
    show ?thesis
    proof (cases "first_generated_text out")
      case (Inl e)
      with lg out show ?thesis by (intro stop [of "Raised e"]) simp
    next
      case (Inr reply)
      note reply = this
      show ?thesis
      proof (cases "score lim reply")
        case (Inl e)
        with lg out reply show ?thesis by (intro stop [of "Raised e"]) simp
      next
        case (Inr sc)
        let ?acc = "acc @ [\<lparr>Principle = title p, Score = sc, Explanation = strip reply\<rparr>]"
        from lg out reply Inr have step:
          "evaluate_loop lim (logged gen) content (p # ps) acc (s, calls) =
           evaluate_loop lim (logged gen) content ps ?acc (s1, ?c)"
          by simp
        from Cons.IH [of ?acc s1 ?c] obtain k where k: "k \<le> length ps"
          "snd (snd (evaluate_loop lim (logged gen) content ps ?acc (s1, ?c))) =
             ?c @ map (\<lambda>p. (full_prompt content p, 256)) (take k ps)"
          "k = length ps \<or> (\<exists>e. fst (evaluate_loop lim (logged gen) content ps ?acc (s1, ?c)) = Inl e)"
          by blast
        show ?thesis
        proof (intro exI [of _ "Suc k"] conjI)
          show "Suc k \<le> length (p # ps)" using k(1) by simp
          show "snd (snd (evaluate_loop lim (logged gen) content (p # ps) acc (s, calls))) =
            calls @ map (\<lambda>p. (full_prompt content p, 256)) (take (Suc k) (p # ps))"
            unfolding step using k(2) by simp
          show "Suc k = length (p # ps) \<or>
            (\<exists>e. fst (evaluate_loop lim (logged gen) content (p # ps) acc (s, calls)) = Inl e)"
            unfolding step using k(3) by simp
        qed
      qed
    qed
  qed
qed

lemma evaluate_loop_logged_same:
  fixes gen :: "('s, 'e) generator"
  shows "fst (evaluate_loop lim (logged gen) content ps acc (s, calls)) =
           fst (evaluate_loop lim gen content ps acc s) \<and>
         fst (snd (evaluate_loop lim (logged gen) content ps acc (s, calls))) =
           snd (evaluate_loop lim gen content ps acc s)"
proof (induction ps arbitrary: acc s calls)
  case Nil
  show ?case by simp
next
  case (Cons p ps)
  obtain r s1 where g: "gen s (full_prompt content p) 256 = (r, s1)"
    by (cases "gen s (full_prompt content p) 256")
  from g have "logged gen (s, calls) (full_prompt content p) 256 =
      (r, (s1, calls @ [(full_prompt content p, 256)]))"
    by (rule logged_call)
  with g Cons.IH show ?case
    by (simp split: sum.split)
qed

text \<open>
  Claim C5 states that the prompt is exactly the concatenation of \<^verbatim>\<open>Content:\<close>, the
  content, \<^verbatim>\<open>Instruction:\<close> and the prompt of the principle. For the empty content the
  first call receives a prompt with line breaks after and between the labels, not that
  concatenation.
\<close>

theorem prompt_is_not_the_bare_concatenation_counterexample:
  "snd (service (snd (evaluate_content 4300 (logged (failing_call 1 ''Score: 7''))
          \<lparr>catalog = principles, service = (0, [])\<rparr> ''''))) ! 0 \<noteq>
   (''Content:'' @ '''' @ ''Instruction:'' @ prompt (principles ! 0), 256)"
  by (simp add: run_simps logged_def failing_call_def score_simps)

text \<open>
  Claim C5, as amended: the calls made in a run are, in catalog order, the calls for the
  first \<open>k\<close> principles, each with the prompt \<^verbatim>\<open>Content:\<close>, a line break, the content as
  it is, two line breaks, \<^verbatim>\<open>Instruction:\<close>, a line break and the prompt of the principle,
  and with 256 as the number of new tokens; \<open>k\<close> is 8 unless the run ended with an error.
\<close>

theorem prompts_sent_to_generator:
  fixes gen :: "('s, 'e) generator"
  shows "\<exists>k. k \<le> 8 \<and>
     snd (service (snd (evaluate_content lim (logged gen)
            \<lparr>catalog = principles, service = (s, [])\<rparr> content))) =
       map (\<lambda>p. (''Content:\<newline>'' @ content @ ''\<newline>\<newline>Instruction:\<newline>'' @ prompt p, 256))
         (take k principles) \<and>
     (k = 8 \<or> (\<exists>e. fst (evaluate_content lim (logged gen)
            \<lparr>catalog = principles, service = (s, [])\<rparr> content) = Inl e))"
proof -
  obtain r t where run: "evaluate_loop lim (logged gen) content principles [] (s, []) = (r, t)"
    by (cases "evaluate_loop lim (logged gen) content principles [] (s, [])")
  from evaluate_loop_logged [of principles lim gen content "[]" s "[]"]
  obtain k where "k \<le> length principles"
    "snd (snd (evaluate_loop lim (logged gen) content principles [] (s, []))) =
       [] @ map (\<lambda>p. (full_prompt content p, 256)) (take k principles)"
    "k = length principles \<or>
       (\<exists>e. fst (evaluate_loop lim (logged gen) content principles [] (s, [])) = Inl e)"
    by blast
  with run have "k \<le> 8"
    "snd t = map (\<lambda>p. (''Content:\<newline>'' @ content @ ''\<newline>\<newline>Instruction:\<newline>'' @ prompt p, 256))
       (take k principles)"
    "k = 8 \<or> (\<exists>e. r = Inl e)"
    by (simp_all add: length_principles full_prompt_def)
  with run show ?thesis
    by (intro exI [of _ k]) (simp add: evaluate_content_def)
qed

section \<open>A failed scrape\<close>



section \<open>Loading the model\<close>

lemma script_builds_a_pipeline:
  "snd (script lim pipeline gen render fetch describe w built) = Suc built"
  by (simp add: script_def load_model_def Let_def split: prod.split sum.split option.split)

lemma reruns_build_a_pipeline_each:
  "snd (reruns lim pipeline gen render fetch describe ws built) = built + length ws"
proof (induction ws arbitrary: built)
  case Nil
  show ?case by simp
next
  case (Cons w ws)
  obtain shown b1 where s: "script lim pipeline gen render fetch describe w built = (shown, b1)"
    by (cases "script lim pipeline gen render fetch describe w built")
  with script_builds_a_pipeline [of lim pipeline gen render fetch describe w built]
  have b1: "b1 = Suc built" by simp
  obtain rest b2 where r: "reruns lim pipeline gen render fetch describe ws b1 = (rest, b2)"
    by (cases "reruns lim pipeline gen render fetch describe ws b1")
  with Cons.IH [of b1] have "b2 = b1 + length ws" by simp
  with s r b1 show ?case by simp
qed

text \<open>
  Claim C8: the model is initialised once per process and reused by all evaluations. A
  session of two executions of the script (two presses of the button, say) constructs
  two pipelines: \<^verbatim>\<open>load_model\<close> is not cached, since line 11 lacks the \<^verbatim>\<open>@\<close> of a
  decorator.
\<close>

theorem model_is_loaded_on_every_run:
  "snd (reruns lim pipeline gen render fetch describe [w1, w2] 0) = 2"
  unfolding reruns_build_a_pipeline_each by simp

section \<open>The overall score\<close>

text \<open>
  Dividing an integer below \<open>2\<^sup>5\<^sup>3\<close> by 8 is exact in double precision: the quotient
  has at most 53 significant bits. The displayed text is then the exact mean, rounded to
  tenths.
\<close>

lemma bit_length_le: "n < 2 ^ k \<Longrightarrow> bit_length n \<le> k"
proof (induction k arbitrary: n)
  case 0
  then show ?case by (simp add: bit_length.simps)
next
  case (Suc k)
  show ?case
  proof (cases "n = 0")
    case True
    then show ?thesis by (simp add: bit_length.simps)
  next
    case False
    from Suc.prems have "n div 2 < 2 ^ k" by simp
    then have "bit_length (n div 2) \<le> k" by (rule Suc.IH)
    with False show ?thesis by (subst bit_length.simps) simp
  qed
qed

lemma bit_length_8: "bit_length 8 = 4"
  by (simp add: bit_length.simps)

lemma floor_log2_quot_le:
  "floor_log2_quot a b \<le> int (bit_length a) - int (bit_length b)"
  by (simp add: floor_log2_quot_def Let_def)

lemma round_half_even_exact: "0 < c \<Longrightarrow> round_half_even (q * c) c = q"
  by (simp add: round_half_even_def)

lemma round_half_even_scale:
  assumes "0 < c"
  shows "round_half_even (a * c) (b * c) = round_half_even a b"
proof -
  from assms have d: "(a * c) div (b * c) = a div b" by simp
  have m: "(a * c) mod (b * c) = (a mod b) * c" by (simp add: mult_mod_left)
  from assms have "(b * c < 2 * ((a mod b) * c)) = (b < 2 * (a mod b))"
    by (simp add: mult.assoc [symmetric])
  moreover from assms have "(2 * ((a mod b) * c) = b * c) = (2 * (a mod b) = b)"
    by (simp add: mult.assoc [symmetric])
  ultimately show ?thesis by (simp add: round_half_even_def d m Let_def)
qed

lemma round_half_even_near:
  assumes "0 < den"
  shows "\<bar>2 * (int (round_half_even num den) * int den - int num)\<bar> \<le> int den"
proof -
  define q r where "q = num div den" and "r = num mod den"
  have num: "int num = int q * int den + int r"
    unfolding q_def r_def by (metis div_mult_mod_eq of_nat_add of_nat_mult)
  from assms have r: "r < den" unfolding r_def by simp
  show ?thesis
  proof (cases "den < 2 * r \<or> (2 * r = den \<and> odd q)")
    case True
    then have "round_half_even num den = q + 1"
      by (simp add: round_half_even_def q_def r_def Let_def)
    with True r num show ?thesis by (auto simp: algebra_simps)
  next
    case False
    then have "round_half_even num den = q"
      by (simp add: round_half_even_def q_def r_def Let_def)
    with False r num show ?thesis by (auto simp: algebra_simps)
  qed
qed

lemma power2_split_3:
  assumes "3 \<le> j"
  shows "(2::nat) ^ j = 8 * 2 ^ (j - 3)"
proof -
  have "(2::nat) ^ (j - 3 + 3) = 2 ^ (j - 3) * 2 ^ 3" by (rule power_add)
  moreover from assms have "j - 3 + 3 = j" by simp
  ultimately show ?thesis by simp
qed

lemma round_to_double_eighths:
  assumes "0 < a" and "a < 2 ^ 53"
  obtains j where "3 \<le> j" and "round_to_double a 8 = Some (a * 2 ^ (j - 3), - int j)"
proof -
  define e where "e = max (floor_log2_quot a 8 - 52) (- 1074)"
  from assms(2) have "bit_length a \<le> 53" by (rule bit_length_le)
  with floor_log2_quot_le [of a 8] have "floor_log2_quot a 8 \<le> 49"
    by (simp add: bit_length_8)
  then have e: "e \<le> - 3" by (simp add: e_def)
  define j where "j = nat (- e)"
  from e have j: "3 \<le> j" and ej: "e = - int j" by (simp_all add: j_def)
  from j have "(2::nat) ^ j = 8 * 2 ^ (j - 3)" by (rule power2_split_3)
  then have "a * 2 ^ j = (a * 2 ^ (j - 3)) * 8" by simp
  then have "round_half_even (a * 2 ^ j) 8 = a * 2 ^ (j - 3)"
    by (simp only: round_half_even_exact)
  with assms(1) e have "round_to_double a 8 = Some (a * 2 ^ (j - 3), - int j)"
    by (simp add: round_to_double_def e_def [symmetric] Let_def j_def)
  with j show thesis by (rule that)
qed

lemma tenths_eighths:
  assumes "3 \<le> j"
  shows "tenths (Double neg (a * 2 ^ (j - 3)) (- int j)) = round_half_even (10 * a) 8"
proof -
  from assms have p2: "(2::nat) ^ j = 8 * 2 ^ (j - 3)" by (rule power2_split_3)
  have ac: "a * 2 ^ (j - 3) * 10 = (10 * a) * 2 ^ (j - 3)" by simp
  have
    "round_half_even (a * 2 ^ (j - 3) * 10) (2 ^ j) =
     round_half_even ((10 * a) * 2 ^ (j - 3)) (8 * 2 ^ (j - 3))"
    by (simp only: p2 ac)
  also have "\<dots> = round_half_even (10 * a) 8"
    by (rule round_half_even_scale) simp
  finally show ?thesis using assms by (simp add: tenths_def)
qed

lemma truediv_by_8_display:
  assumes "0 \<le> S" and "S < 2 ^ 53"
  obtains x where "py_truediv S 8 = Inr x"
    and "format_1f x =
      str_nat (round_half_even (nat (10 * S)) 8 div 10) @ ''.'' @
      str_nat (round_half_even (nat (10 * S)) 8 mod 10)"
proof (cases "S = 0")
  case True
  have "py_truediv 0 8 = Inr (Double False 0 0)"
    by (simp add: py_truediv_def round_to_double_def)
  moreover have "format_1f (Double False 0 0) =
      str_nat (round_half_even (nat (10 * 0)) 8 div 10) @ ''.'' @
      str_nat (round_half_even (nat (10 * 0)) 8 mod 10)"
    by (simp add: format_1f_def tenths_def round_half_even_def)
  ultimately show thesis using True that by simp
next
  case False
  with assms have pos: "0 < nat S" and small: "nat S < 2 ^ 53" by simp_all
  from pos small obtain j where j: "3 \<le> j"
    and rd: "round_to_double (nat S) 8 = Some (nat S * 2 ^ (j - 3), - int j)"
    by (rule round_to_double_eighths)
  from assms(1) rd have "py_truediv S 8 = Inr (Double False (nat S * 2 ^ (j - 3)) (- int j))"
    by (simp add: py_truediv_def)
  moreover from assms(1) have "10 * nat S = nat (10 * S)" by simp
  with tenths_eighths [OF j, of False "nat S"]
  have "format_1f (Double False (nat S * 2 ^ (j - 3)) (- int j)) =
      str_nat (round_half_even (nat (10 * S)) 8 div 10) @ ''.'' @
      str_nat (round_half_even (nat (10 * S)) 8 mod 10)"
    by (simp add: format_1f_def)
  ultimately show thesis by (rule that)
qed

lemmas float_simps =
  overall_score_def py_truediv_def format_1f_def tenths_def round_to_double_def
  floor_log2_quot_def round_half_even_def bit_length.simps

text \<open>
  Claim C7 states that the displayed overall score is the mean of the eight scores,
  to one decimal place. When every reply is \<^verbatim>\<open>9007199254740993\<close> (that is \<open>2\<^sup>5\<^sup>3 + 1\<close>),
  every score is that number and so is their mean; the table and the details are
  rendered, and the script displays \<^verbatim>\<open>9007199254740992.0\<close>: the quotient is a double.
\<close>

theorem overall_score_beyond_double_precision_counterexample:
  "fst (script 4300 (\<lambda>k. 0) (constant_reply ''9007199254740993'') raises_beyond_64_bits
          (\<lambda>u. Inr u :: unit + string) (\<lambda>e. '''')
          \<lparr>radio = PasteText, text_area = ''x'', text_input = '''', button = True\<rparr> 0) =
   Shown
     [\<lparr>Principle = ''Chunk-Level Retrieval'', Score = 9007199254740993, Explanation = ''9007199254740993''\<rparr>,
      \<lparr>Principle = ''Answer Synthesis Optimization'', Score = 9007199254740993, Explanation = ''9007199254740993''\<rparr>,
      \<lparr>Principle = ''Citation-Worthiness'', Score = 9007199254740993, Explanation = ''9007199254740993''\<rparr>,
      \<lparr>Principle = ''Topical Breadth & Depth'', Score = 9007199254740993, Explanation = ''9007199254740993''\<rparr>,
      \<lparr>Principle = ''Multi-Modal Support'', Score = 9007199254740993, Explanation = ''9007199254740993''\<rparr>,
      \<lparr>Principle = ''Authoritativeness Signals'', Score = 9007199254740993, Explanation = ''9007199254740993''\<rparr>,
      \<lparr>Principle = ''Personalization Resilience'', Score = 9007199254740993, Explanation = ''9007199254740993''\<rparr>,
      \<lparr>Principle = ''AI Crawlability & Indexability'', Score = 9007199254740993, Explanation = ''9007199254740993''\<rparr>]
     ''9007199254740992.0''"
  by (simp add: script_def load_model_def input_content_def run_simps constant_reply_def
      raises_beyond_64_bits_def score_simps float_simps)

lemma overall_score_of_small_sum:
  assumes "length scores = 8"
    and "\<forall>r \<in> set scores. 0 \<le> Score r"
    and "sum_list (map Score scores) < 2 ^ 53"
  shows "\<exists>t. overall_score scores = Inr (str_nat (t div 10) @ ''.'' @ str_nat (t mod 10)) \<and>
    \<bar>8 * int t - 10 * sum_list (map Score scores)\<bar> \<le> 4"
proof -
  define S where "S = sum_list (map Score scores)"
  from assms(2) have nonneg: "0 \<le> S" unfolding S_def by (induction scores) simp_all
  from assms(3) have small: "S < 2 ^ 53" by (simp add: S_def)
  define t where "t = round_half_even (nat (10 * S)) 8"
  from nonneg small obtain x where "py_truediv S 8 = Inr x"
    and "format_1f x = str_nat (t div 10) @ ''.'' @ str_nat (t mod 10)"
    unfolding t_def by (rule truediv_by_8_display)
  with assms(1) have shown:
    "overall_score scores = Inr (str_nat (t div 10) @ ''.'' @ str_nat (t mod 10))"
    by (simp add: overall_score_def S_def)
  from round_half_even_near [of 8 "nat (10 * S)"] nonneg
  have "\<bar>8 * int t - 10 * S\<bar> \<le> 4" by (simp add: t_def)
  with shown show ?thesis unfolding S_def by blast
qed

text \<open>
  Claim C7, as amended: for every run of the script that completes all eight principles
  and renders its table and details, with scores that sum to less than \<open>2\<^sup>5\<^sup>3\<close>, the script
  displays the overall score, with one decimal, as \<open>t / 10\<close> for a \<open>t\<close> with
  \<open>|t / 10 - sum / 8| \<le> 1 / 20\<close>, written here as \<open>|8 t - 10 sum| \<le> 4\<close>: the mean, rounded to
  the nearest tenth.
\<close>

theorem overall_score_is_rounded_mean:
  assumes "button w" and "input_content fetch describe w \<noteq> []"
    and "evaluate_content lim gen \<lparr>catalog = principles, service = pipeline built\<rparr>
           (input_content fetch describe w) = (Inr scores, g')"
    and "render scores = None"
    and "sum_list (map Score scores) < 2 ^ 53"
  shows "\<exists>t. script lim pipeline gen render fetch describe w built =
        (Shown scores (str_nat (t div 10) @ ''.'' @ str_nat (t mod 10)), Suc built) \<and>
    \<bar>8 * int t - 10 * sum_list (map Score scores)\<bar> \<le> 4"
proof -
  from evaluate_content_complete [OF assms(3)] have len: "length scores = 8"
    by (simp add: length_principles)
  from evaluate_content_Inr(1) [OF assms(3)] have "\<forall>r \<in> set scores. 0 \<le> Score r"
    by (rule evaluate_loop_scores) simp
  with len obtain t where
    shown: "overall_score scores = Inr (str_nat (t div 10) @ ''.'' @ str_nat (t mod 10))"
    and near: "\<bar>8 * int t - 10 * sum_list (map Score scores)\<bar> \<le> 4"
    using overall_score_of_small_sum [OF _ _ assms(5)] by blast
  from assms(1-4) shown have
    "script lim pipeline gen render fetch describe w built =
       (Shown scores (str_nat (t div 10) @ ''.'' @ str_nat (t mod 10)), Suc built)"
    by (simp add: script_def load_model_def)
  with near show ?thesis by blast
qed

text \<open>Claim C7 on the run whose replies are all \<^verbatim>\<open>Score: 7 out of 10.\<close>\<close>

theorem overall_score_is_rounded_mean_witness:
  "button \<lparr>radio = PasteText, text_area = ''Some page text'', text_input = '''', button = True\<rparr> \<and>
   input_content (\<lambda>u. Inr u :: unit + string) (\<lambda>e. '''')
     \<lparr>radio = PasteText, text_area = ''Some page text'', text_input = '''', button = True\<rparr> \<noteq> [] \<and>
   evaluate_content 4300 (constant_reply ''Score: 7 out of 10.'')
     \<lparr>catalog = principles, service = 0\<rparr>
     (input_content (\<lambda>u. Inr u :: unit + string) (\<lambda>e. '''')
        \<lparr>radio = PasteText, text_area = ''Some page text'', text_input = '''', button = True\<rparr>) =
     (Inr (map (\<lambda>p. \<lparr>Principle = title p, Score = 710, Explanation = ''Score: 7 out of 10.''\<rparr>)
             principles),
      \<lparr>catalog = principles, service = 8\<rparr>) \<and>
   raises_beyond_64_bits
     (map (\<lambda>p. \<lparr>Principle = title p, Score = 710, Explanation = ''Score: 7 out of 10.''\<rparr>)
        principles) = None \<and>
   sum_list (map Score
     (map (\<lambda>p. \<lparr>Principle = title p, Score = 710, Explanation = ''Score: 7 out of 10.''\<rparr>)
        principles)) < 2 ^ 53 \<and>
   overall_score
     (map (\<lambda>p. \<lparr>Principle = title p, Score = 710, Explanation = ''Score: 7 out of 10.''\<rparr>)
        principles) = Inr ''710.0'' \<and>
   (\<exists>t. script 4300 (\<lambda>k. 0) (constant_reply ''Score: 7 out of 10.'') raises_beyond_64_bits
          (\<lambda>u. Inr u :: unit + string) (\<lambda>e. '''')
          \<lparr>radio = PasteText, text_area = ''Some page text'', text_input = '''', button = True\<rparr> 0 =
        (Shown
           (map (\<lambda>p. \<lparr>Principle = title p, Score = 710, Explanation = ''Score: 7 out of 10.''\<rparr>)
              principles)
           (str_nat (t div 10) @ ''.'' @ str_nat (t mod 10)), Suc 0) \<and>
        \<bar>8 * int t - 10 * sum_list (map Score
          (map (\<lambda>p. \<lparr>Principle = title p, Score = 710, Explanation = ''Score: 7 out of 10.''\<rparr>)
             principles))\<bar> \<le> 4)"
proof -
  let ?w = "\<lparr>radio = PasteText, text_area = ''Some page text'', text_input = '''', button = True\<rparr>"
  let ?fetch = "\<lambda>u. Inr u :: unit + string"
  let ?describe = "\<lambda>e :: unit. ''''"
  let ?rs = "map (\<lambda>p. \<lparr>Principle = title p, Score = 710, Explanation = ''Score: 7 out of 10.''\<rparr>)
    principles"
  have pressed: "button ?w" by simp
  have content: "input_content ?fetch ?describe ?w \<noteq> []"
    by (simp add: input_content_def)
  have run: "evaluate_content 4300 (constant_reply ''Score: 7 out of 10.'')
     \<lparr>catalog = principles, service = (\<lambda>k. 0 :: nat) 0\<rparr> (input_content ?fetch ?describe ?w) =
     (Inr ?rs, \<lparr>catalog = principles, service = 8\<rparr>)"
    by (simp add: input_content_def run_simps constant_reply_def score_simps)
  have rendered: "raises_beyond_64_bits ?rs = None"
    by (simp add: raises_beyond_64_bits_def principles_def)
  have small: "sum_list (map Score ?rs) < 2 ^ 53"
    by (simp add: principles_def)
  have shown: "overall_score ?rs = Inr ''710.0''"
    by (simp add: principles_def float_simps str_nat.simps)
  note overall_score_is_rounded_mean
    [where pipeline = "\<lambda>k. 0 :: nat" and built = 0 and render = raises_beyond_64_bits,
      OF pressed content run rendered small]
  with pressed content run rendered small shown show ?thesis
    by (simp only: conj_assoc) blast
qed

lemma script_stops_when_rendering_raises:
  assumes "button w" and "input_content fetch describe w \<noteq> []"
    and "evaluate_content lim gen \<lparr>catalog = principles, service = pipeline built\<rparr>
           (input_content fetch describe w) = (Inr scores, g')"
    and "render scores = Some r"
  shows "script lim pipeline gen render fetch describe w built = (RenderFailed r, Suc built)"
  using assms by (simp add: script_def load_model_def)

text \<open>Beyond the range of the doubles the division raises, and nothing is displayed.\<close>

lemma truediv_overflow:
  "py_truediv (2 ^ 1027) 8 = Inl OverflowError"
  by (simp add: py_truediv_def round_to_double_def floor_log2_quot_def round_half_even_def
      bit_length.simps)

end
